theory Spec2Isabelle
  imports Main
begin

section \<open>Result rows of \<^verbatim>\<open>lib/sqlalchemy/engine/row.py\<close>\<close>

text \<open>
  The module defines \<^verbatim>\<open>BaseRow\<close> (the pure Python class, used when the C extension is
  not importable), its subclasses \<^verbatim>\<open>Row\<close>, \<^verbatim>\<open>LegacyRow\<close> and \<^verbatim>\<open>RowMapping\<close>.
  A row object has four slots: \<^verbatim>\<open>_parent\<close>, \<^verbatim>\<open>_data\<close>, \<^verbatim>\<open>_keymap\<close> and
  \<^verbatim>\<open>_key_style\<close>. This theory embeds the constructor, the positional and keyed
  accessors, attribute access, comparison, hashing and the pickling hooks as HOL
  functions. Every exception the Python code can raise is a value \<open>Inl e\<close> of a sum
  type, and every warning it emits is an entry of a returned list.
\<close>

subsection \<open>Python objects that reach the row\<close>

text \<open>
  A key is whatever object is passed to \<^verbatim>\<open>row[key]\<close>. The code distinguishes keys by
  three tests only: \<^verbatim>\<open>int in key.__class__.__mro__\<close>, \<^verbatim>\<open>isinstance(key, slice)\<close>, and
  whether the dictionary lookup \<^verbatim>\<open>self._keymap[key]\<close> can hash the key.
  \<^item> \<open>KInt i\<close>: an instance of \<^verbatim>\<open>int\<close> (or of a subclass, such as \<^verbatim>\<open>bool\<close>);
  \<^item> \<open>KNum i\<close>: a number whose class is not an integer class but which compares equal
    to the integer \<open>i\<close> (the float \<^verbatim>\<open>2.0\<close>, \<^verbatim>\<open>Decimal(2)\<close>);
  \<^item> \<open>KStr s\<close>: a string, usually a column name;
  \<^item> \<open>KObj n\<close>: any other hashable object, such as a column object, named by an identity;
  \<^item> \<open>KSlice a b c\<close>: \<^verbatim>\<open>slice(a, b, c)\<close> with integer or \<^verbatim>\<open>None\<close> bounds;
  \<^item> \<open>KUnhashable n\<close>: an unhashable object that is not a slice, such as a list.
\<close>

datatype key =
    KInt int
  | KNum int
  | KStr string
  | KObj nat
  | KSlice "int option" "int option" "int option"
  | KUnhashable nat

text \<open>\<^verbatim>\<open>int in key.__class__.__mro__\<close>\<close>

fun is_int :: "key \<Rightarrow> bool" where
  "is_int (KInt i) = True"
| "is_int k = False"

text \<open>\<^verbatim>\<open>isinstance(key, slice)\<close>\<close>

fun is_slice :: "key \<Rightarrow> bool" where
  "is_slice (KSlice a b c) = True"
| "is_slice k = False"

text \<open>
  Whether \<^verbatim>\<open>hash(key)\<close> succeeds. Slice objects are unhashable in the Python
  releases before 3.12, which the \<^verbatim>\<open>except TypeError\<close> branch of
  \<^verbatim>\<open>_get_by_key_impl\<close> relies on.
\<close>

fun hashable :: "key \<Rightarrow> bool" where
  "hashable (KSlice a b c) = False"
| "hashable (KUnhashable n) = False"
| "hashable k = True"

text \<open>
  \<^verbatim>\<open>mdindex != key\<close> for an integer \<^verbatim>\<open>mdindex\<close>: a string, an object or a slice never
  equals an integer; a number does when its numeric value is the same.
\<close>

fun int_ne_key :: "int \<Rightarrow> key \<Rightarrow> bool" where
  "int_ne_key m (KInt i) = (m \<noteq> i)"
| "int_ne_key m (KNum i) = (m \<noteq> i)"
| "int_ne_key m k = True"

text \<open>
  A resolution record is the tuple stored in the key map. The row reads only its entry
  \<^verbatim>\<open>rec[MD_INDEX]\<close> (\<^verbatim>\<open>MD_INDEX = 0\<close>): the position of the column, or \<^verbatim>\<open>None\<close>
  when the name is ambiguous. The remaining entries are carried along as \<open>md_rest\<close>.
\<close>

datatype rec = Rec (md_index: "int option") (md_rest: string)

text \<open>
  Exceptions. \<open>KeyError a\<close> and \<open>AttributeError a\<close> carry their first argument
  (\<^verbatim>\<open>e.args[0]\<close>); a message string is the object \<open>KStr\<close> of that string.
  \<open>AmbiguousName\<close> stands for the error class of the parent's ambiguous-column-name
  raiser, which is neither a \<^verbatim>\<open>KeyError\<close> nor a \<^verbatim>\<open>TypeError\<close>.
\<close>

datatype exn =
    KeyError key
  | TypeError
  | IndexError
  | ValueError
  | AttributeError key
  | AmbiguousName rec

type_synonym warning = string

subsection \<open>The parent and the row\<close>

text \<open>
  Modelled from the spec: the parent (the shared result-set descriptor, a class of
  \<^verbatim>\<open>engine/result.py\<close> and \<^verbatim>\<open>engine/cursor.py\<close>) is taken as a parameter. The row
  uses its key map \<^verbatim>\<open>parent._keymap\<close> and four methods:
  \<^item> \<^verbatim>\<open>_raise_for_nonint(key)\<close> raises; the field gives the exception raised;
  \<^item> \<^verbatim>\<open>_raise_for_ambiguous_column_name(rec)\<close> raises; the field gives the exception;
  \<^item> \<^verbatim>\<open>_key_fallback(key, err)\<close> raises or returns a resolution record;
  \<^item> \<^verbatim>\<open>_warn_for_nonint(key)\<close> emits a warning and returns; the field gives the warning.
\<close>

record parent =
  p_keymap :: "key \<rightharpoonup> rec"
  raise_for_nonint :: "key \<Rightarrow> exn"
  raise_for_ambiguous_column_name :: "rec \<Rightarrow> exn"
  key_fallback :: "key \<Rightarrow> exn \<Rightarrow> exn + rec"
  warn_for_nonint :: "key \<Rightarrow> warning"

text \<open>\<^verbatim>\<open>__slots__ = ("_parent", "_data", "_keymap", "_key_style")\<close>\<close>

record 'v row =
  row_parent :: parent
  row_data :: "'v list"
  row_keymap :: "key \<rightharpoonup> rec"
  row_key_style :: int

definition KEY_INTEGER_ONLY :: int where
  "KEY_INTEGER_ONLY = 0"

definition KEY_OBJECTS_ONLY :: int where
  "KEY_OBJECTS_ONLY = 1"

definition KEY_OBJECTS_BUT_WARN :: int where
  "KEY_OBJECTS_BUT_WARN = 2"

definition KEY_OBJECTS_NO_WARN :: int where
  "KEY_OBJECTS_NO_WARN = 3"

subsection \<open>Tuples and dictionaries of Python\<close>

text \<open>
  \<^verbatim>\<open>t[i]\<close> on a tuple: a negative index counts from the end, and an index outside
  \<^verbatim>\<open>-len(t) .. len(t) - 1\<close> raises \<^verbatim>\<open>IndexError\<close>.
\<close>

definition tuple_getitem :: "'v list \<Rightarrow> int \<Rightarrow> exn + 'v" where
  "tuple_getitem t i =
     (if 0 \<le> i \<and> i < int (length t) then Inr (t ! nat i)
      else if - int (length t) \<le> i \<and> i < 0 then Inr (t ! nat (i + int (length t)))
      else Inl IndexError)"

text \<open>
  \<^verbatim>\<open>t[a:b:c]\<close> on a tuple, as \<^verbatim>\<open>slice.indices\<close> computes it: the bounds are clipped to
  the length, \<open>slice_length\<close> positions are visited from \<open>start\<close> in steps of \<open>step\<close>,
  and a step of zero raises \<^verbatim>\<open>ValueError\<close>.
\<close>

definition clip_bound :: "int \<Rightarrow> int \<Rightarrow> int \<Rightarrow> int" where
  "clip_bound n step i =
     (if i < 0 then (if i + n < 0 then (if step < 0 then - 1 else 0) else i + n)
      else if n \<le> i then (if step < 0 then n - 1 else n)
      else i)"

definition slice_start :: "int \<Rightarrow> int \<Rightarrow> int option \<Rightarrow> int" where
  "slice_start n step a =
     (case a of None \<Rightarrow> (if step < 0 then n - 1 else 0) | Some i \<Rightarrow> clip_bound n step i)"

definition slice_stop :: "int \<Rightarrow> int \<Rightarrow> int option \<Rightarrow> int" where
  "slice_stop n step b =
     (case b of None \<Rightarrow> (if step < 0 then - 1 else n) | Some i \<Rightarrow> clip_bound n step i)"

definition slice_length :: "int \<Rightarrow> int \<Rightarrow> int \<Rightarrow> nat" where
  "slice_length start stop step =
     (if step < 0 then (if stop < start then nat ((start - stop - 1) div (- step) + 1) else 0)
      else (if start < stop then nat ((stop - start - 1) div step + 1) else 0))"

definition tuple_getslice ::
  "'v list \<Rightarrow> int option \<Rightarrow> int option \<Rightarrow> int option \<Rightarrow> exn + 'v list" where
  "tuple_getslice t a b c =
     (let n = int (length t);
          step = (case c of None \<Rightarrow> 1 | Some s \<Rightarrow> s);
          start = slice_start n step a;
          stop = slice_stop n step b
      in if step = 0 then Inl ValueError
         else Inr (map (\<lambda>k. t ! nat (start + int k * step))
                    [0 ..< slice_length start stop step]))"

text \<open>
  \<^verbatim>\<open>d[key]\<close> on a dictionary: an unhashable key raises \<^verbatim>\<open>TypeError\<close>, a missing
  key raises \<^verbatim>\<open>KeyError(key)\<close>.
\<close>

definition dict_getitem :: "(key \<rightharpoonup> rec) \<Rightarrow> key \<Rightarrow> exn + rec" where
  "dict_getitem d k =
     (if \<not> hashable k then Inl TypeError
      else (case d k of None \<Rightarrow> Inl (KeyError k) | Some r \<Rightarrow> Inr r))"

subsection \<open>Construction\<close>

text \<open>
  \<^verbatim>\<open>proc(value) if proc else value\<close>: an entry of the processor list is \<^verbatim>\<open>None\<close> or a
  conversion function, taken to be a total function on values.
\<close>

definition apply_proc :: "('v \<Rightarrow> 'v) option \<Rightarrow> 'v \<Rightarrow> 'v" where
  "apply_proc proc v = (case proc of None \<Rightarrow> v | Some f \<Rightarrow> f v)"

text \<open>
  \<^verbatim>\<open>BaseRow.__init__(self, parent, processors, keymap, key_style, data)\<close>. The test
  \<^verbatim>\<open>if processors:\<close> is false for \<^verbatim>\<open>None\<close> and for an empty sequence; \<^verbatim>\<open>zip\<close> stops
  at the shorter of its two arguments.
\<close>

definition BaseRow_init ::
  "parent \<Rightarrow> ('v \<Rightarrow> 'v) option list option \<Rightarrow> (key \<rightharpoonup> rec) \<Rightarrow> int \<Rightarrow> 'v list \<Rightarrow> 'v row" where
  "BaseRow_init par processors kmap kstyle raw =
     \<lparr> row_parent = par,
       row_data =
         (case processors of
            None \<Rightarrow> raw
          | Some ps \<Rightarrow>
              if ps \<noteq> [] then map (\<lambda>(proc, v). apply_proc proc v) (zip ps raw) else raw),
       row_keymap = kmap,
       row_key_style = kstyle \<rparr>"

text \<open>\<^verbatim>\<open>__len__\<close>\<close>

definition row_len :: "'v row \<Rightarrow> nat" where
  "row_len self = length (row_data self)"

subsection \<open>Positional and keyed access\<close>

text \<open>\<^verbatim>\<open>_get_by_int_impl\<close>: \<^verbatim>\<open>return self._data[key]\<close>\<close>

definition get_by_int_impl :: "'v row \<Rightarrow> int \<Rightarrow> exn + 'v" where
  "get_by_int_impl self i = tuple_getitem (row_data self) i"

text \<open>
  The combined accessor returns one column value, or a tuple of values for a slice.
\<close>

datatype 'v item = Single 'v | Sub "'v list"

text \<open>
  Lines 136 to 143 of \<^verbatim>\<open>_get_by_key_impl\<close>, after the record has been found: the
  ambiguity check, the warning, the positional read.
\<close>

definition by_key_read :: "'v row \<Rightarrow> key \<Rightarrow> rec \<Rightarrow> warning list \<times> (exn + 'v item)" where
  "by_key_read self k r =
     (case md_index r of
        None \<Rightarrow> ([], Inl (raise_for_ambiguous_column_name (row_parent self) r))
      | Some m \<Rightarrow>
          ((if row_key_style self = KEY_OBJECTS_BUT_WARN \<and> int_ne_key m k
            then [warn_for_nonint (row_parent self) k] else []),
           map_sum id Single (tuple_getitem (row_data self) m)))"

text \<open>
  \<^verbatim>\<open>_get_by_key_impl\<close>, which is also \<^verbatim>\<open>BaseRow.__getitem__\<close>. The result pairs the
  warnings emitted with the value returned or the exception raised.
\<close>

definition get_by_key_impl :: "'v row \<Rightarrow> key \<Rightarrow> warning list \<times> (exn + 'v item)" where
  "get_by_key_impl self k =
     (case k of
        KInt i \<Rightarrow> ([], map_sum id Single (tuple_getitem (row_data self) i))
      | _ \<Rightarrow>
          if row_key_style self = KEY_INTEGER_ONLY
          then ([], Inl (raise_for_nonint (row_parent self) k))
          else (case dict_getitem (row_keymap self) k of
                  Inr r \<Rightarrow> by_key_read self k r
                | Inl (KeyError a) \<Rightarrow>
                    (case key_fallback (row_parent self) k (KeyError a) of
                       Inl e \<Rightarrow> ([], Inl e)
                     | Inr r \<Rightarrow> by_key_read self k r)
                | Inl TypeError \<Rightarrow>
                    (case k of
                       KSlice a b c \<Rightarrow> ([], map_sum id Sub (tuple_getslice (row_data self) a b c))
                     | _ \<Rightarrow> ([], Inl TypeError))
                | Inl e \<Rightarrow> ([], Inl e)))"

text \<open>
  Lines 152 to 155 of \<^verbatim>\<open>_get_by_key_impl_mapping\<close>: the record of a key, from the key
  map, or from the parent's fallback when the key map raises \<^verbatim>\<open>KeyError\<close>. A
  \<^verbatim>\<open>TypeError\<close> of the dictionary lookup is not caught here.
\<close>

definition keymap_lookup :: "'v row \<Rightarrow> key \<Rightarrow> exn + rec" where
  "keymap_lookup self k =
     (case dict_getitem (row_keymap self) k of
        Inl (KeyError a) \<Rightarrow> key_fallback (row_parent self) k (KeyError a)
      | res \<Rightarrow> res)"

text \<open>
  \<^verbatim>\<open>_get_by_key_impl_mapping\<close>, which is \<^verbatim>\<open>RowMapping.__getitem__\<close>. It emits no
  warning.
\<close>

definition get_by_key_impl_mapping :: "'v row \<Rightarrow> key \<Rightarrow> exn + 'v" where
  "get_by_key_impl_mapping self k =
     (case keymap_lookup self k of
        Inl e \<Rightarrow> Inl e
      | Inr r \<Rightarrow>
          (case md_index r of
             None \<Rightarrow> Inl (raise_for_ambiguous_column_name (row_parent self) r)
           | Some m \<Rightarrow>
               if row_key_style self = KEY_OBJECTS_ONLY \<and> is_int k then Inl (KeyError k)
               else tuple_getitem (row_data self) m))"

text \<open>
  \<^verbatim>\<open>__getattr__(self, name)\<close>, which Python calls when \<^verbatim>\<open>name\<close> is not found among
  the object's own attributes: a \<^verbatim>\<open>KeyError\<close> of the mapping lookup is replaced by
  \<^verbatim>\<open>AttributeError(e.args[0])\<close>, any other exception passes through.
\<close>

definition getattr :: "'v row \<Rightarrow> string \<Rightarrow> exn + 'v" where
  "getattr self name =
     (case get_by_key_impl_mapping self (KStr name) of
        Inl (KeyError a) \<Rightarrow> Inl (AttributeError a)
      | res \<Rightarrow> res)"

subsection \<open>Derived rows\<close>

text \<open>
  \<^verbatim>\<open>Row._mapping\<close>: a \<^verbatim>\<open>RowMapping\<close> built with no processors and with
  \<^verbatim>\<open>RowMapping._default_key_style\<close>, which is \<^verbatim>\<open>KEY_OBJECTS_ONLY\<close>.
\<close>

definition Row_mapping :: "'v row \<Rightarrow> 'v row" where
  "Row_mapping self =
     BaseRow_init (row_parent self) None (row_keymap self) KEY_OBJECTS_ONLY (row_data self)"

text \<open>\<^verbatim>\<open>_filter_on_values(self, filters)\<close>: a new \<^verbatim>\<open>Row\<close> over the same slots.\<close>

definition filter_on_values :: "'v row \<Rightarrow> ('v \<Rightarrow> 'v) option list option \<Rightarrow> 'v row" where
  "filter_on_values self filters =
     BaseRow_init (row_parent self) filters (row_keymap self) (row_key_style self) (row_data self)"

text \<open>
  Row objects live in a store, a list indexed by address. Calling the class allocates
  the next address and runs the constructor on it; \<^verbatim>\<open>_filter_on_values\<close> reads the row
  at \<open>a\<close> and returns the address of the new one. It fails (\<open>None\<close>) only when \<open>a\<close> is
  not an address of the store.
\<close>

definition Row_new ::
  "'v row list \<Rightarrow> parent \<Rightarrow> ('v \<Rightarrow> 'v) option list option \<Rightarrow> (key \<rightharpoonup> rec) \<Rightarrow> int \<Rightarrow> 'v list
     \<Rightarrow> 'v row list \<times> nat" where
  "Row_new store par processors kmap kstyle raw =
     (store @ [BaseRow_init par processors kmap kstyle raw], length store)"

definition filter_on_values_at ::
  "'v row list \<Rightarrow> nat \<Rightarrow> ('v \<Rightarrow> 'v) option list option \<Rightarrow> ('v row list \<times> nat) option" where
  "filter_on_values_at store a filters =
     (if a < length store
      then Some (Row_new store (row_parent (store ! a)) filters (row_keymap (store ! a))
                   (row_key_style (store ! a)) (row_data (store ! a)))
      else None)"

subsection \<open>Comparison and hashing\<close>

text \<open>
  The right operand of a comparison: an instance of \<^verbatim>\<open>Row\<close>, a tuple, or a list.
\<close>

datatype 'v operand = ORow "'v row" | OTuple "'v list" | OList "'v list"

text \<open>
  \<^verbatim>\<open>operator.eq(t, other)\<close> for a tuple \<open>t\<close>. Two tuples are equal when their entries
  are; a tuple never equals a list. For a \<^verbatim>\<open>Row\<close> on the right, Python falls back on
  the reflected \<^verbatim>\<open>Row.__eq__\<close>, which compares \<^verbatim>\<open>tuple(other)\<close> with \<open>t\<close>; \<^verbatim>\<open>_op\<close>
  never passes a row on.
\<close>

fun operator_eq :: "'v list \<Rightarrow> 'v operand \<Rightarrow> bool" where
  "operator_eq t (OTuple u) = (t = u)"
| "operator_eq t (OList u) = False"
| "operator_eq t (ORow r) = (row_data r = t)"

text \<open>
  \<^verbatim>\<open>Row._op(self, other, op)\<close>; \<^verbatim>\<open>tuple(self)\<close> iterates over \<^verbatim>\<open>self._data\<close>.
\<close>

definition Row_op :: "'v row \<Rightarrow> 'v operand \<Rightarrow> ('v list \<Rightarrow> 'v operand \<Rightarrow> 'b) \<Rightarrow> 'b" where
  "Row_op self other op =
     (case other of
        ORow r \<Rightarrow> op (row_data self) (OTuple (row_data r))
      | _ \<Rightarrow> op (row_data self) other)"

text \<open>\<^verbatim>\<open>__eq__\<close>\<close>

definition Row_eq :: "'v row \<Rightarrow> 'v operand \<Rightarrow> bool" where
  "Row_eq self other = Row_op self other operator_eq"

text \<open>
  \<^verbatim>\<open>__hash__\<close>: \<^verbatim>\<open>hash(self._data)\<close>. The builtin hash of a tuple is the parameter
  \<open>py_hash\<close>.
\<close>

definition BaseRow_hash :: "('v list \<Rightarrow> 'h) \<Rightarrow> 'v row \<Rightarrow> 'h" where
  "BaseRow_hash py_hash self = py_hash (row_data self)"

subsection \<open>Pickling\<close>

text \<open>
  The state is a dictionary from attribute names to objects. An object stored in it is
  a parent, a tuple of values, or an integer.
\<close>

datatype 'v slot = SParent parent | SData "'v list" | SInt int

text \<open>\<^verbatim>\<open>Row.__getstate__\<close>\<close>

definition Row_getstate :: "'v row \<Rightarrow> (string \<rightharpoonup> 'v slot)" where
  "Row_getstate self =
     [''_parent'' \<mapsto> SParent (row_parent self),
      ''_data'' \<mapsto> SData (row_data self),
      ''_key_style'' \<mapsto> SInt (row_key_style self)]"

text \<open>
  \<^verbatim>\<open>Row.__setstate__\<close> on a fresh object. A missing entry raises \<^verbatim>\<open>KeyError\<close>, and
  \<^verbatim>\<open>parent._keymap\<close> raises \<^verbatim>\<open>AttributeError\<close> when the object stored under
  \<^verbatim>\<open>"_parent"\<close> is a tuple or an integer. Python stores the other two entries
  unchecked; when they are not a tuple and an integer the object is not a row, which is
  \<open>Inl TypeError\<close> here.
\<close>

definition Row_setstate :: "(string \<rightharpoonup> 'v slot) \<Rightarrow> exn + 'v row" where
  "Row_setstate state =
     (case state ''_parent'' of
        None \<Rightarrow> Inl (KeyError (KStr ''_parent''))
      | Some sp \<Rightarrow>
     (case state ''_data'' of
        None \<Rightarrow> Inl (KeyError (KStr ''_data''))
      | Some sd \<Rightarrow>
     (case sp of
        SParent par \<Rightarrow>
          (case state ''_key_style'' of
             None \<Rightarrow> Inl (KeyError (KStr ''_key_style''))
           | Some sk \<Rightarrow>
               (case (sd, sk) of
                  (SData d, SInt s) \<Rightarrow>
                    Inr \<lparr> row_parent = par, row_data = d,
                          row_keymap = p_keymap par, row_key_style = s \<rparr>
                | _ \<Rightarrow> Inl TypeError))
      | _ \<Rightarrow> Inl (AttributeError (KStr ''_keymap'')))))"

text \<open>
  \<^verbatim>\<open>rowproxy_reconstructor(cls, state)\<close> and \<^verbatim>\<open>__reduce__\<close>; the class is not modelled.
\<close>

definition rowproxy_reconstructor :: "(string \<rightharpoonup> 'v slot) \<Rightarrow> exn + 'v row" where
  "rowproxy_reconstructor state = Row_setstate state"

definition BaseRow_reduce :: "'v row \<Rightarrow> (string \<rightharpoonup> 'v slot)" where
  "BaseRow_reduce self = Row_getstate self"

subsection \<open>Two result sets\<close>

text \<open>
  Modelled from the spec: a parent whose callbacks raise the error classes of the
  spec's taxonomy, \<^verbatim>\<open>TypeError\<close> for a rejected key, the ambiguous-name error for an
  ambiguous record and \<^verbatim>\<open>KeyError(key)\<close> for an unknown key.
\<close>

definition simple_parent :: "(key \<rightharpoonup> rec) \<Rightarrow> parent" where
  "simple_parent kmap =
     \<lparr> p_keymap = kmap,
       raise_for_nonint = (\<lambda>k. TypeError),
       raise_for_ambiguous_column_name = (\<lambda>r. AmbiguousName r),
       key_fallback = (\<lambda>k e. Inl (KeyError k)),
       warn_for_nonint = (\<lambda>k. ''non-integer key'') \<rparr>"

text \<open>
  Columns \<^verbatim>\<open>["id", "name"]\<close>: the key map resolves both names and both positions; the
  float \<^verbatim>\<open>1.0\<close> hashes and compares like \<^verbatim>\<open>1\<close>, so it finds the same record.
\<close>

definition named_keymap :: "key \<rightharpoonup> rec" where
  "named_keymap =
     [KStr ''id'' \<mapsto> Rec (Some 0) ''id'', KStr ''name'' \<mapsto> Rec (Some 1) ''name'',
      KInt 0 \<mapsto> Rec (Some 0) ''id'', KInt 1 \<mapsto> Rec (Some 1) ''name'',
      KNum 0 \<mapsto> Rec (Some 0) ''id'', KNum 1 \<mapsto> Rec (Some 1) ''name'']"

datatype pyval = VInt int | VStr string

definition named_row :: "int \<Rightarrow> pyval row" where
  "named_row kstyle =
     BaseRow_init (simple_parent named_keymap) None named_keymap kstyle [VInt 1, VStr ''Alice'']"

text \<open>Columns \<^verbatim>\<open>["id", "id"]\<close>: the name is ambiguous, the positions are not.\<close>

definition dup_keymap :: "key \<rightharpoonup> rec" where
  "dup_keymap =
     [KStr ''id'' \<mapsto> Rec None ''id'',
      KInt 0 \<mapsto> Rec (Some 0) ''id'', KInt 1 \<mapsto> Rec (Some 1) ''id'']"

definition dup_row :: "int \<Rightarrow> pyval row" where
  "dup_row kstyle =
     BaseRow_init (simple_parent dup_keymap) None dup_keymap kstyle [VInt 1, VInt 2]"

text \<open>A processor, for rows built with a processor list.\<close>

definition exclaim :: "pyval \<Rightarrow> pyval" where
  "exclaim v = (case v of VStr s \<Rightarrow> VStr (s @ ''!'') | VInt i \<Rightarrow> VInt (i + 1))"

section \<open>Properties\<close>

subsection \<open>Python indexing and slicing\<close>

lemmas key_styles =
  KEY_INTEGER_ONLY_def KEY_OBJECTS_ONLY_def KEY_OBJECTS_BUT_WARN_def KEY_OBJECTS_NO_WARN_def

lemma tuple_getitem_in_range:
  "0 \<le> i \<Longrightarrow> i < int (length t) \<Longrightarrow> tuple_getitem t i = Inr (t ! nat i)"
  by (simp add: tuple_getitem_def)

lemma tuple_getitem_from_end:
  "- int (length t) \<le> i \<Longrightarrow> i < 0 \<Longrightarrow> tuple_getitem t i = Inr (t ! nat (i + int (length t)))"
  by (simp add: tuple_getitem_def)

lemma tuple_getitem_IndexError:
  "tuple_getitem t i = Inl IndexError \<longleftrightarrow> i < - int (length t) \<or> int (length t) \<le> i"
  by (auto simp: tuple_getitem_def)

lemma dict_getitem_TypeError: "dict_getitem d k = Inl TypeError \<longleftrightarrow> \<not> hashable k"
  by (simp add: dict_getitem_def split: option.splits)

text \<open>
  The slice model reads the tuple only at positions inside it, so \<open>tuple_getslice\<close>
  never depends on an out-of-range \<open>!\<close>.
\<close>

lemma clip_bound_range_pos:
  "0 \<le> n \<Longrightarrow> 0 < step \<Longrightarrow> 0 \<le> clip_bound n step i \<and> clip_bound n step i \<le> n"
  by (simp add: clip_bound_def)

lemma clip_bound_range_neg:
  "0 \<le> n \<Longrightarrow> step < 0 \<Longrightarrow> - 1 \<le> clip_bound n step i \<and> clip_bound n step i \<le> n - 1"
  by (simp add: clip_bound_def)

lemma slice_bounds_pos:
  "0 \<le> n \<Longrightarrow> 0 < step \<Longrightarrow> 0 \<le> slice_start n step a \<and> slice_stop n step b \<le> n"
  using clip_bound_range_pos [of n step]
  by (simp add: slice_start_def slice_stop_def split: option.splits)

lemma slice_bounds_neg:
  "0 \<le> n \<Longrightarrow> step < 0 \<Longrightarrow> slice_start n step a \<le> n - 1 \<and> - 1 \<le> slice_stop n step b"
  using clip_bound_range_neg [of n step]
  by (simp add: slice_start_def slice_stop_def split: option.splits)

lemma steps_below:
  fixes x s :: int
  assumes "0 < s" "0 \<le> x" "int k \<le> x div s"
  shows "int k * s \<le> x"
proof -
  have "int k * s \<le> (x div s) * s"
    using assms by (simp add: mult_right_mono)
  also have "\<dots> \<le> x"
  proof -
    have "x div s * s + x mod s = x" by simp
    moreover have "0 \<le> x mod s" using assms(1) by simp
    ultimately show ?thesis by linarith
  qed
  finally show ?thesis .
qed

lemma slice_positions_in_range:
  assumes n: "0 \<le> n" and s: "step \<noteq> 0"
    and k: "k < slice_length (slice_start n step a) (slice_stop n step b) step"
  shows "0 \<le> slice_start n step a + int k * step \<and> slice_start n step a + int k * step < n"
proof (cases "0 < step")
  case True
  let ?st = "slice_start n step a" and ?sp = "slice_stop n step b"
  from k True have lt: "?st < ?sp" and kk: "int k \<le> (?sp - ?st - 1) div step"
    by (auto simp: slice_length_def split: if_splits)
  from lt have nn: "0 \<le> ?sp - ?st - 1" by simp
  have "int k * step \<le> ?sp - ?st - 1" by (rule steps_below [OF True nn kk])
  moreover from slice_bounds_pos [OF n True] have "0 \<le> ?st" "?sp \<le> n" by simp_all
  moreover from True have "0 \<le> int k * step" by simp
  ultimately show ?thesis by linarith
next
  case False
  with s have neg: "step < 0" by simp
  let ?st = "slice_start n step a" and ?sp = "slice_stop n step b"
  from k neg have lt: "?sp < ?st" and kk: "int k \<le> (?st - ?sp - 1) div (- step)"
    by (auto simp: slice_length_def split: if_splits)
  from lt have nn: "0 \<le> ?st - ?sp - 1" by simp
  from neg have pos: "0 < - step" by simp
  have "int k * (- step) \<le> ?st - ?sp - 1" by (rule steps_below [OF pos nn kk])
  moreover from slice_bounds_neg [OF n neg] have "?st \<le> n - 1" "- 1 \<le> ?sp" by simp_all
  moreover from neg have "int k * step \<le> 0" by (simp add: mult_nonneg_nonpos)
  ultimately show ?thesis by (simp add: algebra_simps)
qed

text \<open>With the default step a slice is a contiguous segment, and \<^verbatim>\<open>t[:]\<close> is \<open>t\<close>.\<close>

lemma tuple_getslice_unit_step:
  "tuple_getslice t a b None =
     Inr (take (nat (slice_stop (int (length t)) 1 b - slice_start (int (length t)) 1 a))
            (drop (nat (slice_start (int (length t)) 1 a)) t))"
proof -
  let ?n = "int (length t)"
  let ?st = "slice_start ?n 1 a" and ?sp = "slice_stop ?n 1 b"
  have b: "0 \<le> ?st" "?sp \<le> ?n"
    using slice_bounds_pos [of ?n 1 a b] by simp_all
  have l: "slice_length ?st ?sp 1 = nat (?sp - ?st)"
    by (simp add: slice_length_def)
  have "map (\<lambda>k. t ! nat (?st + int k * 1)) [0 ..< nat (?sp - ?st)] =
      take (nat (?sp - ?st)) (drop (nat ?st) t)"
    using b by (auto simp: list_eq_iff_nth_eq nat_add_distrib min_def)
  with l show ?thesis by (simp add: tuple_getslice_def Let_def)
qed

lemma tuple_getslice_all: "tuple_getslice t None None None = Inr t"
  by (simp add: tuple_getslice_unit_step slice_start_def slice_stop_def)

text \<open>A slice with a step other than zero returns; all it returns is drawn from the tuple.\<close>

lemma tuple_getslice_total: "c \<noteq> Some 0 \<Longrightarrow> \<exists>vs. tuple_getslice t a b c = Inr vs"
  by (auto simp: tuple_getslice_def Let_def split: option.splits)

lemma tuple_getslice_subset:
  assumes "tuple_getslice t a b c = Inr vs"
  shows "set vs \<subseteq> set t"
proof -
  let ?n = "int (length t)"
  let ?step = "case c of None \<Rightarrow> 1 | Some s \<Rightarrow> s"
  let ?st = "slice_start ?n ?step a" and ?sp = "slice_stop ?n ?step b"
  from assms have nz: "?step \<noteq> 0"
    and vs: "vs = map (\<lambda>k. t ! nat (?st + int k * ?step)) [0 ..< slice_length ?st ?sp ?step]"
    by (auto simp: tuple_getslice_def Let_def split: if_splits)
  have "t ! nat (?st + int k * ?step) \<in> set t" if "k < slice_length ?st ?sp ?step" for k
  proof -
    from slice_positions_in_range [OF _ nz that]
    have "0 \<le> ?st + int k * ?step" "?st + int k * ?step < ?n" by simp_all
    then have "nat (?st + int k * ?step) < length t" by linarith
    then show ?thesis by (rule nth_mem)
  qed
  with vs show ?thesis by auto
qed

lemma tuple_getslice_first: "tuple_getslice [VInt 1, VStr ''Alice''] (Some 0) (Some 1) None = Inr [VInt 1]"
  by (simp add: tuple_getslice_def slice_start_def slice_stop_def clip_bound_def slice_length_def)

lemma tuple_getslice_reversed:
  "tuple_getslice [VInt 1, VStr ''Alice''] None None (Some (- 1)) = Inr [VStr ''Alice'', VInt 1]"
  by (simp add: tuple_getslice_def slice_start_def slice_stop_def clip_bound_def
      slice_length_def upt_rec)

subsection \<open>Slots of constructed rows\<close>

lemma init_fields:
  "row_parent (BaseRow_init par processors kmap kstyle raw) = par"
  "row_keymap (BaseRow_init par processors kmap kstyle raw) = kmap"
  "row_key_style (BaseRow_init par processors kmap kstyle raw) = kstyle"
  by (simp_all add: BaseRow_init_def)

lemma init_data:
  "row_data (BaseRow_init par processors kmap kstyle raw) =
     (case processors of None \<Rightarrow> raw
      | Some ps \<Rightarrow> if ps \<noteq> [] then map (\<lambda>(proc, v). apply_proc proc v) (zip ps raw) else raw)"
  by (simp add: BaseRow_init_def)

lemma Row_mapping_fields:
  "row_parent (Row_mapping self) = row_parent self"
  "row_data (Row_mapping self) = row_data self"
  "row_keymap (Row_mapping self) = row_keymap self"
  "row_key_style (Row_mapping self) = KEY_OBJECTS_ONLY"
  by (simp_all add: Row_mapping_def BaseRow_init_def)

lemma keymap_lookup_Row_mapping: "keymap_lookup (Row_mapping self) k = keymap_lookup self k"
  by (simp add: keymap_lookup_def Row_mapping_fields split: sum.splits exn.splits)

lemma keymap_lookup_key_style:
  "keymap_lookup (self\<lparr>row_key_style := s\<rparr>) k = keymap_lookup self k"
  by (simp add: keymap_lookup_def split: sum.splits exn.splits)

lemma named_row_slots:
  "row_parent (named_row s) = simple_parent named_keymap"
  "row_data (named_row s) = [VInt 1, VStr ''Alice'']"
  "row_keymap (named_row s) = named_keymap"
  "row_key_style (named_row s) = s"
  by (simp_all add: named_row_def BaseRow_init_def)

lemma dup_row_slots:
  "row_parent (dup_row s) = simple_parent dup_keymap"
  "row_data (dup_row s) = [VInt 1, VInt 2]"
  "row_keymap (dup_row s) = dup_keymap"
  "row_key_style (dup_row s) = s"
  by (simp_all add: dup_row_def BaseRow_init_def)

lemma Row_eq_ORow: "Row_eq self (ORow r) = (row_data self = row_data r)"
  by (simp add: Row_eq_def Row_op_def)

lemma Row_eq_OTuple: "Row_eq self (OTuple u) = (row_data self = u)"
  by (simp add: Row_eq_def Row_op_def)

lemma Row_eq_OList: "Row_eq self (OList u) = False"
  by (simp add: Row_eq_def Row_op_def)

subsection \<open>Integer keys\<close>

text \<open>
  C1. For every row, every key style and every integer key, the combined accessor
  returns \<^verbatim>\<open>self._data[key]\<close>: it emits no warning, it gives what positional access
  gives (the value at a position inside the row, the value counted from the end for a
  negative index, and otherwise the \<^verbatim>\<open>IndexError\<close> of the tuple), and the result is the
  same under any other key style and any other parent. No callback of the parent is
  reached, so an integer key is never rejected.
\<close>

theorem int_key_positional:
  "get_by_key_impl self (KInt i) = ([], map_sum id Single (get_by_int_impl self i))
   \<and> get_by_key_impl (self\<lparr>row_key_style := s\<rparr>) (KInt i) = get_by_key_impl self (KInt i)
   \<and> get_by_key_impl (self\<lparr>row_parent := p\<rparr>) (KInt i) = get_by_key_impl self (KInt i)
   \<and> get_by_key_impl self (KInt i) =
       (if 0 \<le> i \<and> i < int (row_len self) then ([], Inr (Single (row_data self ! nat i)))
        else if - int (row_len self) \<le> i \<and> i < 0
          then ([], Inr (Single (row_data self ! nat (i + int (row_len self)))))
        else ([], Inl IndexError))"
  by (simp add: get_by_key_impl_def get_by_int_impl_def tuple_getitem_def row_len_def)

text \<open>The row \<^verbatim>\<open>(1, "Alice")\<close> under each of the four key styles.\<close>

theorem int_key_positional_witness:
  "get_by_key_impl (named_row KEY_INTEGER_ONLY) (KInt 1) = ([], Inr (Single (VStr ''Alice'')))
   \<and> get_by_key_impl (named_row KEY_OBJECTS_ONLY) (KInt 1) = ([], Inr (Single (VStr ''Alice'')))
   \<and> get_by_key_impl (named_row KEY_OBJECTS_BUT_WARN) (KInt 1) = ([], Inr (Single (VStr ''Alice'')))
   \<and> get_by_key_impl (named_row KEY_OBJECTS_NO_WARN) (KInt (- 2)) = ([], Inr (Single (VInt 1)))
   \<and> get_by_key_impl (named_row KEY_INTEGER_ONLY) (KInt 2) = ([], Inl IndexError)"
proof -
  note p = int_key_positional [THEN conjunct2, THEN conjunct2, THEN conjunct2]
  have a: "get_by_key_impl (named_row KEY_INTEGER_ONLY) (KInt 1)
      = ([], Inr (Single (VStr ''Alice'')))"
    using p [of "named_row KEY_INTEGER_ONLY" 1] by (simp add: named_row_slots row_len_def)
  have b: "get_by_key_impl (named_row KEY_OBJECTS_ONLY) (KInt 1)
      = ([], Inr (Single (VStr ''Alice'')))"
    using p [of "named_row KEY_OBJECTS_ONLY" 1] by (simp add: named_row_slots row_len_def)
  have c: "get_by_key_impl (named_row KEY_OBJECTS_BUT_WARN) (KInt 1)
      = ([], Inr (Single (VStr ''Alice'')))"
    using p [of "named_row KEY_OBJECTS_BUT_WARN" 1] by (simp add: named_row_slots row_len_def)
  have d: "get_by_key_impl (named_row KEY_OBJECTS_NO_WARN) (KInt (- 2))
      = ([], Inr (Single (VInt 1)))"
    using p [of "named_row KEY_OBJECTS_NO_WARN" "- 2"] by (simp add: named_row_slots row_len_def)
  have e: "get_by_key_impl (named_row KEY_INTEGER_ONLY) (KInt 2) = ([], Inl IndexError)"
    using p [of "named_row KEY_INTEGER_ONLY" 2] by (simp add: named_row_slots row_len_def)
  from a b c d e show ?thesis by simp
qed

subsection \<open>Ambiguous names\<close>

text \<open>
  C2, as amended. Let the key map of a row send a hashable key that is not an integer
  (a column name) to a record whose position is \<^verbatim>\<open>None\<close>. Then the mapping accessor
  fails with exactly the exception of the parent's
  \<^verbatim>\<open>_raise_for_ambiguous_column_name\<close>, under every key style. The combined accessor
  does the same, with no warning, under every key style but \<^verbatim>\<open>KEY_INTEGER_ONLY\<close>,
  where it fails earlier with the exception of \<^verbatim>\<open>_raise_for_nonint\<close>. Access by a
  position inside the row, through \<^verbatim>\<open>_get_by_int_impl\<close> or through the combined
  accessor, returns the stored value.
\<close>

theorem ambiguous_name_raises:
  "hashable k \<Longrightarrow> \<not> is_int k \<Longrightarrow> row_keymap self k = Some r \<Longrightarrow> md_index r = None \<Longrightarrow>
     get_by_key_impl_mapping self k = Inl (raise_for_ambiguous_column_name (row_parent self) r)
     \<and> get_by_key_impl self k =
         (if row_key_style self = KEY_INTEGER_ONLY
          then ([], Inl (raise_for_nonint (row_parent self) k))
          else ([], Inl (raise_for_ambiguous_column_name (row_parent self) r)))
     \<and> (\<forall>i. 0 \<le> i \<and> i < int (row_len self) \<longrightarrow>
           get_by_int_impl self i = Inr (row_data self ! nat i)
           \<and> get_by_key_impl self (KInt i) = ([], Inr (Single (row_data self ! nat i))))"
  by (cases k)
    (simp_all add: get_by_key_impl_mapping_def keymap_lookup_def dict_getitem_def
      get_by_key_impl_def by_key_read_def get_by_int_impl_def tuple_getitem_def row_len_def)

text \<open>
  The claim as stated fails for a row of key style \<^verbatim>\<open>KEY_INTEGER_ONLY\<close>: the name
  \<^verbatim>\<open>"id"\<close> is ambiguous in the key map, and the combined accessor raises the
  \<^verbatim>\<open>TypeError\<close> of the rejected key, not the ambiguous-name error.
\<close>

theorem ambiguous_name_integer_only:
  "row_keymap (dup_row KEY_INTEGER_ONLY) (KStr ''id'') = Some (Rec None ''id'')
   \<and> get_by_key_impl (dup_row KEY_INTEGER_ONLY) (KStr ''id'') = ([], Inl TypeError)
   \<and> get_by_key_impl (dup_row KEY_INTEGER_ONLY) (KStr ''id'')
       \<noteq> ([], Inl (raise_for_ambiguous_column_name (row_parent (dup_row KEY_INTEGER_ONLY))
                (Rec None ''id'')))"
  by (simp add: dup_row_def dup_keymap_def BaseRow_init_def simple_parent_def
      get_by_key_impl_def key_styles)

text \<open>Columns \<^verbatim>\<open>["id", "id"]\<close> with values \<^verbatim>\<open>(1, 2)\<close>.\<close>

theorem ambiguous_name_raises_witness:
  "get_by_key_impl_mapping (dup_row KEY_OBJECTS_BUT_WARN) (KStr ''id'')
     = Inl (AmbiguousName (Rec None ''id''))
   \<and> get_by_key_impl (dup_row KEY_OBJECTS_BUT_WARN) (KStr ''id'')
     = ([], Inl (AmbiguousName (Rec None ''id'')))
   \<and> get_by_int_impl (dup_row KEY_OBJECTS_BUT_WARN) 0 = Inr (VInt 1)
   \<and> get_by_int_impl (dup_row KEY_OBJECTS_BUT_WARN) 1 = Inr (VInt 2)"
proof -
  let ?r = "dup_row KEY_OBJECTS_BUT_WARN"
  have k: "hashable (KStr ''id'')" "\<not> is_int (KStr ''id'')" by simp_all
  have m: "row_keymap ?r (KStr ''id'') = Some (Rec None ''id'')"
    by (simp add: dup_row_slots dup_keymap_def)
  have n: "md_index (Rec None ''id'') = None" by simp
  have s: "row_key_style ?r \<noteq> KEY_INTEGER_ONLY" "row_len ?r = 2"
      "row_data ?r = [VInt 1, VInt 2]"
      "raise_for_ambiguous_column_name (row_parent ?r) = AmbiguousName"
    by (simp_all add: dup_row_slots key_styles row_len_def simple_parent_def)
  note t = ambiguous_name_raises [OF k m n]
  from t have a: "get_by_key_impl_mapping ?r (KStr ''id'') = Inl (AmbiguousName (Rec None ''id''))"
    by (simp add: s)
  from t have b: "get_by_key_impl ?r (KStr ''id'') = ([], Inl (AmbiguousName (Rec None ''id'')))"
    by (simp add: s)
  from t have c: "\<forall>i. 0 \<le> i \<and> i < int (row_len ?r) \<longrightarrow>
      get_by_int_impl ?r i = Inr (row_data ?r ! nat i)"
    by blast
  from c [rule_format, of 0] have c0: "get_by_int_impl ?r 0 = Inr (VInt 1)" by (simp add: s)
  from c [rule_format, of 1] have c1: "get_by_int_impl ?r 1 = Inr (VInt 2)" by (simp add: s)
  from a b c0 c1 show ?thesis by simp
qed

subsection \<open>Integer keys in the mapping view\<close>

text \<open>
  What the mapping accessor does with an integer key that resolves, in the key map or
  through the fallback, to a record with a position: on a row of key style
  \<^verbatim>\<open>KEY_OBJECTS_ONLY\<close>, and so on every view that \<^verbatim>\<open>Row._mapping\<close> builds, line 164
  raises \<^verbatim>\<open>KeyError(key)\<close>; under any other key style the accessor returns the value at
  the resolved position.
\<close>

lemma mapping_integer_key_raises_KeyError:
  "is_int k \<Longrightarrow> keymap_lookup self k = Inr r \<Longrightarrow> md_index r = Some m \<Longrightarrow>
     get_by_key_impl_mapping (Row_mapping self) k = Inl (KeyError k)
     \<and> get_by_key_impl_mapping self k =
         (if row_key_style self = KEY_OBJECTS_ONLY then Inl (KeyError k)
          else tuple_getitem (row_data self) m)"
  by (simp add: get_by_key_impl_mapping_def keymap_lookup_Row_mapping Row_mapping_fields)

text \<open>
  C3. On a row of key style \<^verbatim>\<open>KEY_OBJECTS_ONLY\<close>, mapping access with an integer key
  that resolves in the key map is to fail with a type-mismatch error, the class of error
  that a string key gets under \<^verbatim>\<open>KEY_INTEGER_ONLY\<close>, and not with a key-not-found
  error; the docstring of \<^verbatim>\<open>KEY_OBJECTS_ONLY\<close> says the same (\<^verbatim>\<open>__getitem__\<close> only
  allows string/object values, raises \<^verbatim>\<open>TypeError\<close> otherwise). The code does not do
  this. For the row \<^verbatim>\<open>(1, "Alice")\<close> with columns \<^verbatim>\<open>["id", "name"]\<close>,
  \<^verbatim>\<open>row._mapping[0]\<close> raises \<^verbatim>\<open>KeyError(0)\<close>, which is not a \<^verbatim>\<open>TypeError\<close>, while
  \<^verbatim>\<open>row["id"]\<close> under \<^verbatim>\<open>KEY_INTEGER_ONLY\<close> raises the \<^verbatim>\<open>TypeError\<close> of the parent.
\<close>

theorem mapping_integer_key_not_TypeError:
  "row_key_style (Row_mapping (named_row KEY_OBJECTS_BUT_WARN)) = KEY_OBJECTS_ONLY
   \<and> row_keymap (Row_mapping (named_row KEY_OBJECTS_BUT_WARN)) (KInt 0) = Some (Rec (Some 0) ''id'')
   \<and> get_by_key_impl_mapping (Row_mapping (named_row KEY_OBJECTS_BUT_WARN)) (KInt 0)
     = Inl (KeyError (KInt 0))
   \<and> get_by_key_impl_mapping (Row_mapping (named_row KEY_OBJECTS_BUT_WARN)) (KInt 0)
     \<noteq> Inl TypeError
   \<and> get_by_key_impl (named_row KEY_INTEGER_ONLY) (KStr ''id'') = ([], Inl TypeError)"
  by (simp add: get_by_key_impl_mapping_def keymap_lookup_def dict_getitem_def Row_mapping_def
      named_row_def named_keymap_def BaseRow_init_def simple_parent_def get_by_key_impl_def
      key_styles)

subsection \<open>The warning for keys that are not integers\<close>

text \<open>
  C4. Let the key style be \<^verbatim>\<open>KEY_OBJECTS_BUT_WARN\<close>, and let a key that is not an
  integer resolve, in the key map or through the fallback, to a record with position
  \<open>m\<close>. Then the combined accessor emits the warning of the parent's
  \<^verbatim>\<open>_warn_for_nonint\<close> once when \<^verbatim>\<open>m != key\<close> and no warning otherwise, and its
  result is \<^verbatim>\<open>self._data[m]\<close>, the stored value when \<open>m\<close> is a position of the row.
  Under any other key style the accessor emits no warning, whatever the key.
\<close>

theorem warning_exactly_when_position_differs:
  "(row_key_style self = KEY_OBJECTS_BUT_WARN \<and> \<not> is_int k \<and> keymap_lookup self k = Inr r
      \<and> md_index r = Some m \<longrightarrow>
      get_by_key_impl self k =
        ((if int_ne_key m k then [warn_for_nonint (row_parent self) k] else []),
         map_sum id Single (tuple_getitem (row_data self) m))
      \<and> (0 \<le> m \<and> m < int (row_len self) \<longrightarrow>
           snd (get_by_key_impl self k) = Inr (Single (row_data self ! nat m))))
   \<and> (row_key_style self \<noteq> KEY_OBJECTS_BUT_WARN \<longrightarrow> fst (get_by_key_impl self k') = [])"
proof (intro conjI impI)
  assume a: "row_key_style self = KEY_OBJECTS_BUT_WARN \<and> \<not> is_int k
    \<and> keymap_lookup self k = Inr r \<and> md_index r = Some m"
  then have ni: "row_key_style self \<noteq> KEY_INTEGER_ONLY" by (simp add: key_styles)
  from a have "by_key_read self k r =
      ((if int_ne_key m k then [warn_for_nonint (row_parent self) k] else []),
         map_sum id Single (tuple_getitem (row_data self) m))"
    by (simp add: by_key_read_def)
  moreover from a ni have "get_by_key_impl self k = by_key_read self k r"
    by (cases k)
      (auto simp: get_by_key_impl_def keymap_lookup_def split: sum.splits exn.splits)
  ultimately show g: "get_by_key_impl self k =
      ((if int_ne_key m k then [warn_for_nonint (row_parent self) k] else []),
         map_sum id Single (tuple_getitem (row_data self) m))" by simp
  assume "0 \<le> m \<and> m < int (row_len self)"
  then show "snd (get_by_key_impl self k) = Inr (Single (row_data self ! nat m))"
    by (simp add: g tuple_getitem_def row_len_def)
next
  assume "row_key_style self \<noteq> KEY_OBJECTS_BUT_WARN"
  then show "fst (get_by_key_impl self k') = []"
    by (cases k')
      (auto simp: get_by_key_impl_def by_key_read_def
        split: sum.splits exn.splits option.splits key.splits)
qed

text \<open>
  \<^verbatim>\<open>row["name"]\<close> warns and returns \<^verbatim>\<open>"Alice"\<close>; \<^verbatim>\<open>row[1.0]\<close> finds the record of
  position 1, compares equal to it and does not warn; \<^verbatim>\<open>KEY_OBJECTS_NO_WARN\<close> never
  warns.
\<close>

theorem warning_exactly_when_position_differs_witness:
  "get_by_key_impl (named_row KEY_OBJECTS_BUT_WARN) (KStr ''name'')
     = ([''non-integer key''], Inr (Single (VStr ''Alice'')))
   \<and> get_by_key_impl (named_row KEY_OBJECTS_BUT_WARN) (KNum 1)
     = ([], Inr (Single (VStr ''Alice'')))
   \<and> fst (get_by_key_impl (named_row KEY_OBJECTS_NO_WARN) (KStr ''name'')) = []"
proof -
  let ?r = "named_row KEY_OBJECTS_BUT_WARN"
  have s: "row_key_style ?r = KEY_OBJECTS_BUT_WARN"
      "tuple_getitem (row_data ?r) 1 = Inr (VStr ''Alice'')"
      "warn_for_nonint (row_parent ?r) = (\<lambda>k. ''non-integer key'')"
    by (simp_all add: named_row_slots tuple_getitem_def simple_parent_def)
  have l1: "keymap_lookup ?r (KStr ''name'') = Inr (Rec (Some 1) ''name'')"
    by (simp add: keymap_lookup_def dict_getitem_def named_row_slots named_keymap_def)
  have l2: "keymap_lookup ?r (KNum 1) = Inr (Rec (Some 1) ''name'')"
    by (simp add: keymap_lookup_def dict_getitem_def named_row_slots named_keymap_def)
  have o: "row_key_style (named_row KEY_OBJECTS_NO_WARN) \<noteq> KEY_OBJECTS_BUT_WARN"
    by (simp add: named_row_slots key_styles)
  from warning_exactly_when_position_differs
         [of ?r "KStr ''name''" "Rec (Some 1) ''name''" 1 "KStr ''name''"] s l1
  have a: "get_by_key_impl ?r (KStr ''name'')
      = ([''non-integer key''], Inr (Single (VStr ''Alice'')))"
    by simp
  from warning_exactly_when_position_differs
         [of ?r "KNum 1" "Rec (Some 1) ''name''" 1 "KStr ''name''"] s l2
  have b: "get_by_key_impl ?r (KNum 1) = ([], Inr (Single (VStr ''Alice'')))"
    by simp
  from warning_exactly_when_position_differs
         [of "named_row KEY_OBJECTS_NO_WARN" "KStr ''name''" "Rec (Some 1) ''name''" 1
           "KStr ''name''"] o
  have c: "fst (get_by_key_impl (named_row KEY_OBJECTS_NO_WARN) (KStr ''name'')) = []"
    by simp
  from a b c show ?thesis by simp
qed

subsection \<open>Equality and hash\<close>

text \<open>
  C5, as amended. Two rows with equal value tuples are equal in both directions and
  have the same hash, whatever their parents, key maps and key styles; they also
  compare alike with every other operand. A row equals the tuple of its values. It does
  not equal a list of its values: \<^verbatim>\<open>_op\<close> passes an operand that is not a \<^verbatim>\<open>Row\<close> to
  the tuple comparison unconverted, and a tuple never equals a list.
\<close>

theorem eq_and_hash_depend_on_values_only:
  "row_data r1 = row_data r2 \<Longrightarrow>
     Row_eq r1 (ORow r2) \<and> Row_eq r2 (ORow r1)
     \<and> BaseRow_hash py_hash r1 = BaseRow_hash py_hash r2
     \<and> Row_eq r1 other = Row_eq r2 other
     \<and> Row_eq r1 (OTuple (row_data r2))
     \<and> \<not> Row_eq r1 (OList (row_data r2))"
  by (cases other) (simp_all add: Row_eq_ORow Row_eq_OTuple Row_eq_OList BaseRow_hash_def)

text \<open>
  The claim as stated fails for a list, a plain ordered sequence:
  \<^verbatim>\<open>row == [1, "Alice"]\<close> is false for the row \<^verbatim>\<open>(1, "Alice")\<close>.
\<close>

theorem row_not_equal_to_list:
  "row_data (named_row KEY_OBJECTS_BUT_WARN) = [VInt 1, VStr ''Alice'']
   \<and> \<not> Row_eq (named_row KEY_OBJECTS_BUT_WARN) (OList [VInt 1, VStr ''Alice''])"
  by (simp add: Row_eq_OList named_row_slots)

text \<open>Two rows over \<^verbatim>\<open>(1, "Alice")\<close> with different parents, key maps and key styles.\<close>

theorem eq_and_hash_depend_on_values_only_witness:
  "Row_eq (named_row KEY_OBJECTS_BUT_WARN)
     (ORow (BaseRow_init (simple_parent dup_keymap) None dup_keymap KEY_INTEGER_ONLY
        [VInt 1, VStr ''Alice'']))
   \<and> BaseRow_hash length (named_row KEY_OBJECTS_BUT_WARN) =
       BaseRow_hash length (BaseRow_init (simple_parent dup_keymap) None dup_keymap
         KEY_INTEGER_ONLY [VInt 1, VStr ''Alice''])
   \<and> Row_eq (named_row KEY_OBJECTS_BUT_WARN) (OTuple [VInt 1, VStr ''Alice''])"
proof -
  let ?r1 = "named_row KEY_OBJECTS_BUT_WARN"
  let ?r2 = "BaseRow_init (simple_parent dup_keymap) None dup_keymap KEY_INTEGER_ONLY
        [VInt 1, VStr ''Alice'']"
  have d: "row_data ?r1 = row_data ?r2" "row_data ?r2 = [VInt 1, VStr ''Alice'']"
    by (simp_all add: named_row_slots init_data)
  from eq_and_hash_depend_on_values_only [OF d(1), of length "OList []"] show ?thesis
    by (simp add: d(2))
qed

subsection \<open>Pickling round trip\<close>

text \<open>
  C6. The state captured by \<^verbatim>\<open>__getstate__\<close> has exactly the three entries
  \<^verbatim>\<open>"_parent"\<close>, \<^verbatim>\<open>"_data"\<close> and \<^verbatim>\<open>"_key_style"\<close>, holding the row's parent, values and
  key style; the key map is not in it. Restoring from that state, directly or through
  the reconstructor of \<^verbatim>\<open>__reduce__\<close>, succeeds and gives a row with the same parent,
  values and key style, whose key map is the parent's \<^verbatim>\<open>_keymap\<close>, whose hash is the
  original's and which equals the original.
\<close>

theorem getstate_setstate_roundtrip:
  "dom (Row_getstate self) = {''_parent'', ''_data'', ''_key_style''}
   \<and> ''_keymap'' \<notin> dom (Row_getstate self)
   \<and> Row_getstate self ''_parent'' = Some (SParent (row_parent self))
   \<and> Row_getstate self ''_data'' = Some (SData (row_data self))
   \<and> Row_getstate self ''_key_style'' = Some (SInt (row_key_style self))
   \<and> (\<exists>restored.
         rowproxy_reconstructor (BaseRow_reduce self) = Inr restored
         \<and> Row_setstate (Row_getstate self) = Inr restored
         \<and> row_parent restored = row_parent self
         \<and> row_data restored = row_data self
         \<and> row_key_style restored = row_key_style self
         \<and> row_keymap restored = p_keymap (row_parent self)
         \<and> BaseRow_hash py_hash restored = BaseRow_hash py_hash self
         \<and> Row_eq restored (ORow self) \<and> Row_eq self (ORow restored))"
proof -
  have s: "Row_setstate (Row_getstate self) =
      Inr \<lparr> row_parent = row_parent self, row_data = row_data self,
            row_keymap = p_keymap (row_parent self), row_key_style = row_key_style self \<rparr>"
    by (simp add: Row_setstate_def Row_getstate_def)
  have d: "dom (Row_getstate self) = {''_parent'', ''_data'', ''_key_style''}"
    by (auto simp: Row_getstate_def)
  have k: "''_keymap'' \<notin> dom (Row_getstate self)"
    by (simp add: d)
  have g: "Row_getstate self ''_parent'' = Some (SParent (row_parent self))"
    "Row_getstate self ''_data'' = Some (SData (row_data self))"
    "Row_getstate self ''_key_style'' = Some (SInt (row_key_style self))"
    by (simp_all add: Row_getstate_def)
  from s d k g show ?thesis
    by (simp add: rowproxy_reconstructor_def BaseRow_reduce_def BaseRow_hash_def Row_eq_ORow)
qed

text \<open>
  A row built with a key map other than its parent's: the restored row carries the
  parent's key map.
\<close>

theorem getstate_setstate_roundtrip_witness:
  "dom (Row_getstate (BaseRow_init (simple_parent named_keymap) None dup_keymap
          KEY_OBJECTS_NO_WARN [VInt 1, VInt 2]))
     = {''_parent'', ''_data'', ''_key_style''}
   \<and> Row_setstate (Row_getstate (BaseRow_init (simple_parent named_keymap) None dup_keymap
          KEY_OBJECTS_NO_WARN [VInt 1, VInt 2]))
     = Inr (BaseRow_init (simple_parent named_keymap) None named_keymap
          KEY_OBJECTS_NO_WARN [VInt 1, VInt 2])"
proof -
  let ?r = "BaseRow_init (simple_parent named_keymap) None dup_keymap
          KEY_OBJECTS_NO_WARN [VInt 1, VInt 2]"
  from getstate_setstate_roundtrip [of ?r length]
  obtain restored where d: "dom (Row_getstate ?r) = {''_parent'', ''_data'', ''_key_style''}"
    and r: "Row_setstate (Row_getstate ?r) = Inr restored"
      "row_parent restored = row_parent ?r" "row_data restored = row_data ?r"
      "row_key_style restored = row_key_style ?r"
      "row_keymap restored = p_keymap (row_parent ?r)"
    by blast
  from r(2-5) have "restored = BaseRow_init (simple_parent named_keymap) None named_keymap
          KEY_OBJECTS_NO_WARN [VInt 1, VInt 2]"
    by (simp add: BaseRow_init_def simple_parent_def)
  with d r(1) show ?thesis by simp
qed

subsection \<open>Construction with processors\<close>

text \<open>
  C7. Let a row be constructed from \<open>n\<close> raw values, with no processor sequence or
  with a processor sequence that has one entry per raw value, as the constructor's
  contract requires. Then the row has length \<open>n\<close>, and positional access at every
  position \<open>i < n\<close> returns the final value \<open>i\<close>: the raw value when no sequence was
  given or the entry \<open>i\<close> is \<^verbatim>\<open>None\<close>, and the entry \<open>i\<close> applied once to the raw value
  otherwise. Access reads the stored tuple, so no processor runs after construction.
\<close>

theorem init_length_and_values:
  "(case processors of None \<Rightarrow> True | Some ps \<Rightarrow> length ps = length raw) \<Longrightarrow>
     row_len (BaseRow_init par processors kmap kstyle raw) = length raw
     \<and> (\<forall>i < length raw.
          get_by_int_impl (BaseRow_init par processors kmap kstyle raw) (int i) =
            Inr (case processors of
                   None \<Rightarrow> raw ! i
                 | Some ps \<Rightarrow> (case ps ! i of None \<Rightarrow> raw ! i | Some f \<Rightarrow> f (raw ! i)))
          \<and> get_by_key_impl (BaseRow_init par processors kmap kstyle raw) (KInt (int i)) =
            ([], Inr (Single (case processors of
                   None \<Rightarrow> raw ! i
                 | Some ps \<Rightarrow> (case ps ! i of None \<Rightarrow> raw ! i | Some f \<Rightarrow> f (raw ! i))))))"
  by (cases processors)
    (auto simp: row_len_def get_by_int_impl_def get_by_key_impl_def init_data tuple_getitem_def
      apply_proc_def split: option.splits)

text \<open>
  The raw values \<^verbatim>\<open>(1, "Alice")\<close> with the processors \<^verbatim>\<open>[None, exclaim]\<close>, and the same
  raw values with no processors.
\<close>

theorem init_length_and_values_witness:
  "row_len (BaseRow_init (simple_parent named_keymap) (Some [None, Some exclaim]) named_keymap
        KEY_OBJECTS_BUT_WARN [VInt 1, VStr ''Alice'']) = 2
   \<and> get_by_int_impl (BaseRow_init (simple_parent named_keymap) (Some [None, Some exclaim])
        named_keymap KEY_OBJECTS_BUT_WARN [VInt 1, VStr ''Alice'']) 0 = Inr (VInt 1)
   \<and> get_by_int_impl (BaseRow_init (simple_parent named_keymap) (Some [None, Some exclaim])
        named_keymap KEY_OBJECTS_BUT_WARN [VInt 1, VStr ''Alice'']) 1 = Inr (VStr ''Alice!'')
   \<and> row_len (named_row KEY_OBJECTS_BUT_WARN) = 2
   \<and> get_by_int_impl (named_row KEY_OBJECTS_BUT_WARN) 1 = Inr (VStr ''Alice'')"
proof -
  let ?ps = "Some [None, Some exclaim]"
  let ?raw = "[VInt 1, VStr ''Alice'']"
  let ?row = "BaseRow_init (simple_parent named_keymap) ?ps named_keymap
        KEY_OBJECTS_BUT_WARN ?raw"
  have h: "(case ?ps of None \<Rightarrow> True | Some ps \<Rightarrow> length ps = length ?raw)"
    by simp
  note t = init_length_and_values [OF h, of "simple_parent named_keymap" named_keymap
      KEY_OBJECTS_BUT_WARN]
  from t have a: "row_len ?row = 2" by simp
  from t have q: "\<forall>i<length ?raw.
          get_by_int_impl ?row (int i) =
            Inr (case ?ps of
                   None \<Rightarrow> ?raw ! i
                 | Some ps \<Rightarrow> (case ps ! i of None \<Rightarrow> ?raw ! i | Some f \<Rightarrow> f (?raw ! i)))"
    by blast
  from q [rule_format, of 0] have b: "get_by_int_impl ?row 0 = Inr (VInt 1)" by simp
  from q [rule_format, of 1] have c: "get_by_int_impl ?row 1 = Inr (VStr ''Alice!'')"
    by (simp add: exclaim_def)
  have n: "(case None :: (pyval \<Rightarrow> pyval) option list option of
              None \<Rightarrow> True | Some ps \<Rightarrow> length ps = length ?raw)"
    by simp
  note u = init_length_and_values [OF n, of "simple_parent named_keymap" named_keymap
      KEY_OBJECTS_BUT_WARN, folded named_row_def]
  from u have d: "row_len (named_row KEY_OBJECTS_BUT_WARN) = 2" by simp
  from u have r: "\<forall>i<length ?raw.
      get_by_int_impl (named_row KEY_OBJECTS_BUT_WARN) (int i) = Inr (?raw ! i)"
    by simp
  from r [rule_format, of 1]
  have e: "get_by_int_impl (named_row KEY_OBJECTS_BUT_WARN) 1 = Inr (VStr ''Alice'')" by simp
  from a b c d e show ?thesis by simp
qed

subsection \<open>Slice keys\<close>

text \<open>
  C8, as amended. Let the key-map lookup of a key raise \<^verbatim>\<open>TypeError\<close> (the key is
  unhashable). Under every key style but \<^verbatim>\<open>KEY_INTEGER_ONLY\<close> the combined accessor
  then returns, for a slice with a step other than zero, the tuple that positional
  slicing of the values selects (all of its entries are values of the row), and emits
  no warning; for a slice with step zero it
  raises the \<^verbatim>\<open>ValueError\<close> of the slicing; for a key that is not a slice the
  \<^verbatim>\<open>TypeError\<close> propagates. Under \<^verbatim>\<open>KEY_INTEGER_ONLY\<close> the key map is not consulted
  and the accessor fails with the exception of the parent's \<^verbatim>\<open>_raise_for_nonint\<close>.
\<close>

theorem slice_key_returns_subsequence:
  "dict_getitem (row_keymap self) k = Inl TypeError \<Longrightarrow>
     get_by_key_impl self k =
       (if row_key_style self = KEY_INTEGER_ONLY
        then ([], Inl (raise_for_nonint (row_parent self) k))
        else (case k of
                KSlice a b c \<Rightarrow>
                  (if c = Some 0 then ([], Inl ValueError)
                   else ([], map_sum id Sub (tuple_getslice (row_data self) a b c)))
              | _ \<Rightarrow> ([], Inl TypeError)))
     \<and> (\<forall>a b c. k = KSlice a b c \<and> c \<noteq> Some 0 \<longrightarrow>
           (\<exists>vs. tuple_getslice (row_data self) a b c = Inr vs
              \<and> set vs \<subseteq> set (row_data self)))"
proof (intro conjI allI impI)
  assume "dict_getitem (row_keymap self) k = Inl TypeError"
  then show "get_by_key_impl self k =
       (if row_key_style self = KEY_INTEGER_ONLY
        then ([], Inl (raise_for_nonint (row_parent self) k))
        else (case k of
                KSlice a b c \<Rightarrow>
                  (if c = Some 0 then ([], Inl ValueError)
                   else ([], map_sum id Sub (tuple_getslice (row_data self) a b c)))
              | _ \<Rightarrow> ([], Inl TypeError)))"
    by (cases k)
      (auto simp: get_by_key_impl_def dict_getitem_def tuple_getslice_def Let_def
        split: option.splits)
next
  fix a b c
  assume "k = KSlice a b c \<and> c \<noteq> Some 0"
  then obtain vs where "tuple_getslice (row_data self) a b c = Inr vs"
    using tuple_getslice_total by blast
  then show "\<exists>vs. tuple_getslice (row_data self) a b c = Inr vs
      \<and> set vs \<subseteq> set (row_data self)"
    using tuple_getslice_subset by blast
qed

text \<open>
  The claim as stated fails in two places: \<^verbatim>\<open>row[:]\<close> on a row of key style
  \<^verbatim>\<open>KEY_INTEGER_ONLY\<close> raises the \<^verbatim>\<open>TypeError\<close> of the rejected key, and
  \<^verbatim>\<open>row[::0]\<close> raises \<^verbatim>\<open>ValueError\<close>; in both the key-map lookup of the slice raises
  \<^verbatim>\<open>TypeError\<close>.
\<close>

theorem slice_key_rejected_or_zero_step:
  "dict_getitem (row_keymap (named_row KEY_INTEGER_ONLY)) (KSlice None None None) = Inl TypeError
   \<and> get_by_key_impl (named_row KEY_INTEGER_ONLY) (KSlice None None None) = ([], Inl TypeError)
   \<and> dict_getitem (row_keymap (named_row KEY_OBJECTS_NO_WARN)) (KSlice None None (Some 0))
       = Inl TypeError
   \<and> get_by_key_impl (named_row KEY_OBJECTS_NO_WARN) (KSlice None None (Some 0))
       = ([], Inl ValueError)"
  by (simp add: get_by_key_impl_def dict_getitem_def tuple_getslice_def named_row_def
      BaseRow_init_def simple_parent_def key_styles)

text \<open>\<^verbatim>\<open>row[0:1]\<close>, \<^verbatim>\<open>row[::-1]\<close> and a list used as key.\<close>

theorem slice_key_returns_subsequence_witness:
  "get_by_key_impl (named_row KEY_OBJECTS_BUT_WARN) (KSlice (Some 0) (Some 1) None)
     = ([], Inr (Sub [VInt 1]))
   \<and> get_by_key_impl (named_row KEY_OBJECTS_BUT_WARN) (KSlice None None (Some (- 1)))
     = ([], Inr (Sub [VStr ''Alice'', VInt 1]))
   \<and> get_by_key_impl (named_row KEY_OBJECTS_BUT_WARN) (KUnhashable 7) = ([], Inl TypeError)"
proof -
  let ?r = "named_row KEY_OBJECTS_BUT_WARN"
  have s: "row_key_style ?r \<noteq> KEY_INTEGER_ONLY" "row_data ?r = [VInt 1, VStr ''Alice'']"
    by (simp_all add: named_row_slots key_styles)
  have h: "dict_getitem (row_keymap ?r) (KSlice (Some 0) (Some 1) None) = Inl TypeError"
      "dict_getitem (row_keymap ?r) (KSlice None None (Some (- 1))) = Inl TypeError"
      "dict_getitem (row_keymap ?r) (KUnhashable 7) = Inl TypeError"
    by (simp_all add: dict_getitem_def)
  from slice_key_returns_subsequence [OF h(1)]
  have a: "get_by_key_impl ?r (KSlice (Some 0) (Some 1) None) = ([], Inr (Sub [VInt 1]))"
    by (simp add: s tuple_getslice_first)
  from slice_key_returns_subsequence [OF h(2)]
  have b: "get_by_key_impl ?r (KSlice None None (Some (- 1)))
      = ([], Inr (Sub [VStr ''Alice'', VInt 1]))"
    by (simp add: s tuple_getslice_reversed)
  from slice_key_returns_subsequence [OF h(3)]
  have c: "get_by_key_impl ?r (KUnhashable 7) = ([], Inl TypeError)"
    by (simp add: s)
  from a b c show ?thesis by simp
qed

subsection \<open>Derivation with filters\<close>

text \<open>
  C9. For a row at address \<open>a\<close> of the store, \<^verbatim>\<open>_filter_on_values\<close> returns: it
  allocates one new row at a fresh address and leaves every row of the store, the
  original included, as it was. The new row has the original's parent, key map and key
  style. Its values are the original's when the filter list is \<^verbatim>\<open>None\<close> or empty;
  otherwise they are the original's values with the filters applied entry by entry, as
  far as the shorter of the two sequences reaches: entry \<open>i\<close> is the original value
  where the filter \<open>i\<close> is \<^verbatim>\<open>None\<close>, and the filter applied to it otherwise.
\<close>

theorem filter_on_values_shares_slots:
  "a < length store \<Longrightarrow>
     (\<exists>store' b. filter_on_values_at store a filters = Some (store', b)
        \<and> b = length store \<and> length store' = Suc (length store)
        \<and> (\<forall>c < length store. store' ! c = store ! c)
        \<and> store' ! b = filter_on_values (store ! a) filters)
     \<and> row_parent (filter_on_values (store ! a) filters) = row_parent (store ! a)
     \<and> row_keymap (filter_on_values (store ! a) filters) = row_keymap (store ! a)
     \<and> row_key_style (filter_on_values (store ! a) filters) = row_key_style (store ! a)
     \<and> (filters = None \<or> filters = Some [] \<longrightarrow>
          row_data (filter_on_values (store ! a) filters) = row_data (store ! a))
     \<and> (\<forall>fs. filters = Some fs \<and> fs \<noteq> [] \<longrightarrow>
          length (row_data (filter_on_values (store ! a) filters))
            = min (length fs) (length (row_data (store ! a)))
          \<and> (\<forall>i < length (row_data (filter_on_values (store ! a) filters)).
               row_data (filter_on_values (store ! a) filters) ! i =
                 (case fs ! i of None \<Rightarrow> row_data (store ! a) ! i
                  | Some f \<Rightarrow> f (row_data (store ! a) ! i))))"
  by (auto simp: filter_on_values_at_def Row_new_def filter_on_values_def init_fields
      init_data nth_append apply_proc_def split: option.splits)

text \<open>The row \<^verbatim>\<open>(1, "Alice")\<close> filtered with \<^verbatim>\<open>[None, exclaim]\<close>.\<close>

theorem filter_on_values_shares_slots_witness:
  "(\<exists>store'. filter_on_values_at [named_row KEY_OBJECTS_BUT_WARN] 0 (Some [None, Some exclaim])
        = Some (store', 1)
      \<and> length store' = 2
      \<and> store' ! 0 = named_row KEY_OBJECTS_BUT_WARN
      \<and> row_data (store' ! 1) = [VInt 1, VStr ''Alice!'']
      \<and> row_parent (store' ! 1) = simple_parent named_keymap
      \<and> row_keymap (store' ! 1) = named_keymap
      \<and> row_key_style (store' ! 1) = KEY_OBJECTS_BUT_WARN)"
proof -
  let ?r = "named_row KEY_OBJECTS_BUT_WARN"
  let ?fs = "[None, Some exclaim]"
  let ?new = "filter_on_values ?r (Some ?fs)"
  have l: "0 < length [?r]" by simp
  note t = filter_on_values_shares_slots [OF l, of "Some ?fs", simplified nth_Cons_0]
  from t obtain store' where
    s: "filter_on_values_at [?r] 0 (Some ?fs) = Some (store', 1)" "length store' = 2"
      "store' ! 0 = ?r" "store' ! 1 = ?new"
    by auto
  from t have f: "row_parent ?new = simple_parent named_keymap" "row_keymap ?new = named_keymap"
      "row_key_style ?new = KEY_OBJECTS_BUT_WARN"
    by (simp_all add: named_row_slots)
  from t have n: "length (row_data ?new) = 2"
    and e: "\<forall>i < length (row_data ?new). row_data ?new ! i =
          (case ?fs ! i of None \<Rightarrow> row_data ?r ! i | Some f \<Rightarrow> f (row_data ?r ! i))"
    by (simp_all add: named_row_slots)
  from e [rule_format, of 0] n have e0: "row_data ?new ! 0 = VInt 1"
    by (simp add: named_row_slots)
  from e [rule_format, of 1] n have e1: "row_data ?new ! 1 = VStr ''Alice!''"
    by (simp add: named_row_slots exclaim_def)
  from n e0 e1 have d: "row_data ?new = [VInt 1, VStr ''Alice!'']"
    by (auto simp: list_eq_iff_nth_eq less_Suc_eq numeral_2_eq_2)
  from s f d show ?thesis by simp
qed

subsection \<open>Attribute access\<close>

text \<open>
  C10. \<^verbatim>\<open>__getattr__\<close> looks the name up with the mapping accessor, and the key style
  has no influence on the outcome, as a name is a string. A \<^verbatim>\<open>KeyError\<close> of that lookup
  becomes an \<^verbatim>\<open>AttributeError\<close> with the same argument, so attribute access never
  raises \<^verbatim>\<open>KeyError\<close>; every other outcome of the lookup is passed on unchanged. In
  particular an unknown name for which the parent's fallback raises \<^verbatim>\<open>KeyError\<close> gives
  \<^verbatim>\<open>AttributeError\<close>, and a name that resolves to a position gives the value there.
\<close>

theorem getattr_KeyError_becomes_AttributeError:
  "getattr (self\<lparr>row_key_style := s\<rparr>) name = getattr self name
   \<and> get_by_key_impl_mapping (self\<lparr>row_key_style := s\<rparr>) (KStr name)
       = get_by_key_impl_mapping self (KStr name)
   \<and> (get_by_key_impl_mapping self (KStr name) = Inl (KeyError a) \<longrightarrow>
        getattr self name = Inl (AttributeError a))
   \<and> getattr self name \<noteq> Inl (KeyError b)
   \<and> ((\<forall>c. get_by_key_impl_mapping self (KStr name) \<noteq> Inl (KeyError c)) \<longrightarrow>
        getattr self name = get_by_key_impl_mapping self (KStr name))
   \<and> (row_keymap self (KStr name) = None
        \<and> key_fallback (row_parent self) (KStr name) (KeyError (KStr name)) = Inl (KeyError a) \<longrightarrow>
        getattr self name = Inl (AttributeError a))
   \<and> (keymap_lookup self (KStr name) = Inr r \<and> md_index r = Some m \<longrightarrow>
        getattr self name = tuple_getitem (row_data self) m)"
proof -
  have ks: "get_by_key_impl_mapping (self\<lparr>row_key_style := s\<rparr>) (KStr name)
       = get_by_key_impl_mapping self (KStr name)"
    by (simp add: get_by_key_impl_mapping_def keymap_lookup_key_style
        split: sum.splits option.splits)
  then have g: "getattr (self\<lparr>row_key_style := s\<rparr>) name = getattr self name"
    by (simp add: getattr_def)
  have e: "get_by_key_impl_mapping self (KStr name) = Inl (KeyError a) \<longrightarrow>
        getattr self name = Inl (AttributeError a)"
    by (simp add: getattr_def)
  have n: "getattr self name \<noteq> Inl (KeyError b)"
    by (simp add: getattr_def split: sum.splits exn.splits)
  have o: "(\<forall>c. get_by_key_impl_mapping self (KStr name) \<noteq> Inl (KeyError c)) \<longrightarrow>
        getattr self name = get_by_key_impl_mapping self (KStr name)"
    by (simp add: getattr_def split: sum.splits exn.splits)
  have f: "row_keymap self (KStr name) = None
        \<and> key_fallback (row_parent self) (KStr name) (KeyError (KStr name)) = Inl (KeyError a) \<longrightarrow>
        getattr self name = Inl (AttributeError a)"
    by (simp add: getattr_def get_by_key_impl_mapping_def keymap_lookup_def dict_getitem_def)
  have v: "keymap_lookup self (KStr name) = Inr r \<and> md_index r = Some m \<longrightarrow>
        getattr self name = tuple_getitem (row_data self) m"
    by (auto simp: getattr_def get_by_key_impl_mapping_def tuple_getitem_def
        split: sum.splits exn.splits)
  from ks g e n o f v show ?thesis by blast
qed

text \<open>
  \<^verbatim>\<open>row.name\<close> is \<^verbatim>\<open>"Alice"\<close> under \<^verbatim>\<open>KEY_OBJECTS_ONLY\<close> too, and \<^verbatim>\<open>row.nope\<close> raises
  \<^verbatim>\<open>AttributeError("nope")\<close>.
\<close>

theorem getattr_KeyError_becomes_AttributeError_witness:
  "getattr (named_row KEY_OBJECTS_ONLY) ''name'' = Inr (VStr ''Alice'')
   \<and> getattr (named_row KEY_OBJECTS_ONLY) ''nope'' = Inl (AttributeError (KStr ''nope''))"
proof -
  let ?r = "named_row KEY_OBJECTS_ONLY"
  have l: "keymap_lookup ?r (KStr ''name'') = Inr (Rec (Some 1) ''name'')"
    by (simp add: keymap_lookup_def dict_getitem_def named_row_slots named_keymap_def)
  have u: "row_keymap ?r (KStr ''nope'') = None"
     "key_fallback (row_parent ?r) (KStr ''nope'') (KeyError (KStr ''nope''))
        = Inl (KeyError (KStr ''nope''))"
    by (simp_all add: named_row_slots named_keymap_def simple_parent_def)
  have d: "tuple_getitem (row_data ?r) 1 = Inr (VStr ''Alice'')"
    by (simp add: named_row_slots tuple_getitem_def)
  from getattr_KeyError_becomes_AttributeError
         [where self = ?r and name = "''name''" and r = "Rec (Some 1) ''name''" and m = 1] l d
  have a: "getattr ?r ''name'' = Inr (VStr ''Alice'')" by simp
  from getattr_KeyError_becomes_AttributeError
         [where self = ?r and name = "''nope''" and a = "KStr ''nope''"] u
  have b: "getattr ?r ''nope'' = Inl (AttributeError (KStr ''nope''))" by simp
  from a b show ?thesis by simp
qed

end
